theory Spec2Isabelle
  imports Main "HOL-Library.Word"
begin

unbundle bit_operations_syntax

section \<open>Address hashing functions of \<^verbatim>\<open>gpgpu-sim/hashing.cc\<close>\<close>

subsection \<open>Machine types\<close>

text \<open>
  \<^verbatim>\<open>new_addr_type\<close> is the simulator's address type, \<^verbatim>\<open>unsigned long long\<close>, declared in
  \<^verbatim>\<open>abstract_hardware_model.h\<close>; it is read here as a 64-bit word, which is also the width
  of the \<^verbatim>\<open>std::bitset<64>\<close> every hash copies it into. \<^verbatim>\<open>unsigned\<close> is a 32-bit word.
\<close>

type_synonym new_addr_type = "64 word"
type_synonym unsigned = "32 word"

text \<open>
  Both table-driven hashes end in \<^verbatim>\<open>assert(... && 0); return 0;\<close> for a bank count they have
  no table for. The model is of a build with assertions enabled, where the failed assertion
  aborts the program: that outcome is the error value below, and the \<^verbatim>\<open>return 0\<close> after it
  is never reached.
\<close>

datatype error = UnsupportedBankCount

subsection \<open>\<^verbatim>\<open>std::bitset\<close>\<close>

text \<open>
  \<^verbatim>\<open>std::bitset<N> b(v)\<close> holds the \<open>N\<close> low bits of \<open>v\<close>, position 0 the least significant
  one; it is a list of \<open>N\<close> booleans. \<^verbatim>\<open>b[k]\<close> is \<open>b ! k\<close>, \<^verbatim>\<open>b[k] = x\<close> is \<open>b[k := x]\<close>;
  every position the source reads or writes is a literal below the size of its bitset.
  \<^verbatim>\<open>to_ulong\<close> reads the bits back as a number, which the functions return as \<^verbatim>\<open>unsigned\<close>.
\<close>

definition bitset :: "nat \<Rightarrow> 'a::len word \<Rightarrow> bool list" where
  "bitset N v = map (bit v) [0..<N]"

definition to_ulong :: "bool list \<Rightarrow> unsigned" where
  "to_ulong bs = horner_sum of_bool 2 bs"

text \<open>
  \<^verbatim>\<open>x ^ y\<close> on two bits (each converted to 0 or 1, the result converted back on assignment)
  is exclusive or; \<^verbatim>\<open>x1 ^ x2 ^ ... ^ xn\<close> associates to the left.
\<close>

definition bxor :: "bool \<Rightarrow> bool \<Rightarrow> bool" where
  "bxor p q = (p \<noteq> q)"

fun xors :: "bool list \<Rightarrow> bool" where
  "xors [] = False"
| "xors (x # xs) = foldl bxor x xs"

subsection \<open>The three hash functions\<close>

definition ipoly_hash_function :: "new_addr_type \<Rightarrow> unsigned \<Rightarrow> unsigned \<Rightarrow> error + unsigned" where
  "ipoly_hash_function higher_bits index bank_set_num =
  (if bank_set_num = 8 then
     let a = bitset 64 higher_bits;
         b = bitset 3 index;
         new_index = bitset 3 index;
         new_index = new_index[0 := xors [a ! 11, a ! 10, a ! 9, a ! 7, a ! 4, a ! 3, a ! 2,
                                          a ! 0, b ! 0]];
         new_index = new_index[1 := xors [a ! 12, a ! 9, a ! 8, a ! 7, a ! 5, a ! 2, a ! 1,
                                          a ! 0, b ! 1]];
         new_index = new_index[2 := xors [a ! 13, a ! 10, a ! 9, a ! 8, a ! 6, a ! 3, a ! 2,
                                          a ! 1, b ! 2]]
     in Inr (to_ulong new_index)
   else if bank_set_num = 16 then
     let a = bitset 64 higher_bits;
         b = bitset 4 index;
         new_index = bitset 4 index;
         new_index = new_index[0 := xors [a ! 11, a ! 10, a ! 9, a ! 8, a ! 6, a ! 4, a ! 3,
                                          a ! 0, b ! 0]];
         new_index = new_index[1 := xors [a ! 12, a ! 8, a ! 7, a ! 6, a ! 5, a ! 3, a ! 1,
                                          a ! 0, b ! 1]];
         new_index = new_index[2 := xors [a ! 9, a ! 8, a ! 7, a ! 6, a ! 4, a ! 2, a ! 1,
                                          b ! 2]];
         new_index = new_index[3 := xors [a ! 10, a ! 9, a ! 8, a ! 7, a ! 5, a ! 3, a ! 2,
                                          b ! 3]]
     in Inr (to_ulong new_index)
   else if bank_set_num = 32 then
     let a = bitset 64 higher_bits;
         b = bitset 5 index;
         new_index = bitset 5 index;
         new_index = new_index[0 := xors [a ! 13, a ! 12, a ! 11, a ! 10, a ! 9, a ! 6, a ! 5,
                                          a ! 3, a ! 0, b ! 0]];
         new_index = new_index[1 := xors [a ! 14, a ! 13, a ! 12, a ! 11, a ! 10, a ! 7, a ! 6,
                                          a ! 4, a ! 1, b ! 1]];
         new_index = new_index[2 := xors [a ! 14, a ! 10, a ! 9, a ! 8, a ! 7, a ! 6, a ! 3,
                                          a ! 2, a ! 0, b ! 2]];
         new_index = new_index[3 := xors [a ! 11, a ! 10, a ! 9, a ! 8, a ! 7, a ! 4, a ! 3,
                                          a ! 1, b ! 3]];
         new_index = new_index[4 := xors [a ! 12, a ! 11, a ! 10, a ! 9, a ! 8, a ! 5, a ! 4,
                                          a ! 2, b ! 4]]
     in Inr (to_ulong new_index)
   else if bank_set_num = 64 then
     let a = bitset 64 higher_bits;
         b = bitset 6 index;
         new_index = bitset 6 index;
         new_index = new_index[0 := xors [a ! 18, a ! 17, a ! 16, a ! 15, a ! 12, a ! 10,
                                          a ! 6, a ! 5, a ! 0, b ! 0]];
         new_index = new_index[1 := xors [a ! 15, a ! 13, a ! 12, a ! 11, a ! 10, a ! 7, a ! 5,
                                          a ! 1, a ! 0, b ! 1]];
         new_index = new_index[2 := xors [a ! 16, a ! 14, a ! 13, a ! 12, a ! 11, a ! 8, a ! 6,
                                          a ! 2, a ! 1, b ! 2]];
         new_index = new_index[3 := xors [a ! 17, a ! 15, a ! 14, a ! 13, a ! 12, a ! 9, a ! 7,
                                          a ! 3, a ! 2, b ! 3]];
         new_index = new_index[4 := xors [a ! 18, a ! 16, a ! 15, a ! 14, a ! 13, a ! 10,
                                          a ! 8, a ! 4, a ! 3, b ! 4]];
         new_index = new_index[5 := xors [a ! 17, a ! 16, a ! 15, a ! 14, a ! 11, a ! 9, a ! 5,
                                          a ! 4, b ! 5]]
     in Inr (to_ulong new_index)
   else if bank_set_num = 128 then
     let a = bitset 64 higher_bits;
         b = bitset 7 index;
         new_index = bitset 7 index;
         new_index = new_index[0 := xors [a ! 21, a ! 20, a ! 19, a ! 18, a ! 14, a ! 12,
                                          a ! 7, a ! 6, a ! 0, b ! 0]];
         new_index = new_index[1 := xors [a ! 22, a ! 18, a ! 15, a ! 14, a ! 13, a ! 12,
                                          a ! 8, a ! 6, a ! 1, a ! 0, b ! 1]];
         new_index = new_index[2 := xors [a ! 19, a ! 16, a ! 15, a ! 14, a ! 13, a ! 9, a ! 7,
                                          a ! 2, a ! 1, b ! 2]];
         new_index = new_index[3 := xors [a ! 20, a ! 17, a ! 16, a ! 15, a ! 14, a ! 10,
                                          a ! 8, a ! 3, a ! 2, b ! 3]];
         new_index = new_index[4 := xors [a ! 21, a ! 18, a ! 17, a ! 16, a ! 15, a ! 11,
                                          a ! 9, a ! 4, a ! 3, b ! 4]];
         new_index = new_index[5 := xors [a ! 22, a ! 19, a ! 18, a ! 17, a ! 16, a ! 12,
                                          a ! 10, a ! 5, a ! 4, b ! 5]];
         new_index = new_index[6 := xors [a ! 20, a ! 19, a ! 18, a ! 17, a ! 13, a ! 11,
                                          a ! 6, a ! 5, b ! 6]]
     in Inr (to_ulong new_index)
   else if bank_set_num = 256 then
     let a = bitset 64 higher_bits;
         b = bitset 8 index;
         new_index = bitset 8 index;
         new_index = new_index[0 := xors [a ! 21, a ! 20, a ! 19, a ! 17, a ! 16, a ! 13,
                                          a ! 12, a ! 10, a ! 7, a ! 5, a ! 4, a ! 0, b ! 0]];
         new_index = new_index[1 := xors [a ! 19, a ! 18, a ! 16, a ! 14, a ! 12, a ! 11,
                                          a ! 10, a ! 8, a ! 7, a ! 6, a ! 4, a ! 1, a ! 0,
                                          b ! 1]];
         new_index = new_index[2 := xors [a ! 20, a ! 19, a ! 17, a ! 15, a ! 13, a ! 12,
                                          a ! 11, a ! 9, a ! 8, a ! 7, a ! 5, a ! 2, a ! 1,
                                          b ! 2]];
         new_index = new_index[3 := xors [a ! 19, a ! 18, a ! 17, a ! 14, a ! 9, a ! 8, a ! 7,
                                          a ! 6, a ! 5, a ! 4, a ! 3, a ! 2, a ! 0, b ! 3]];
         new_index = new_index[4 := xors [a ! 21, a ! 18, a ! 17, a ! 16, a ! 15, a ! 13,
                                          a ! 12, a ! 9, a ! 8, a ! 6, a ! 3, a ! 1, a ! 0,
                                          b ! 4]];
         new_index = new_index[5 := xors [a ! 19, a ! 18, a ! 17, a ! 16, a ! 14, a ! 13,
                                          a ! 10, a ! 9, a ! 7, a ! 4, a ! 2, a ! 1, b ! 5]];
         new_index = new_index[6 := xors [a ! 20, a ! 19, a ! 18, a ! 17, a ! 15, a ! 14,
                                          a ! 11, a ! 10, a ! 8, a ! 5, a ! 3, a ! 2, b ! 6]];
         new_index = new_index[7 := xors [a ! 21, a ! 20, a ! 19, a ! 18, a ! 16, a ! 15,
                                          a ! 12, a ! 11, a ! 9, a ! 6, a ! 4, a ! 3, b ! 7]]
     in Inr (to_ulong new_index)
   else Inl UnsupportedBankCount)"

text \<open>
  \<^verbatim>\<open>return (index) ^ (higher_bits & (bank_set_num - 1));\<close> The subtraction is done in
  \<^verbatim>\<open>unsigned\<close> and wraps; its result and \<^verbatim>\<open>index\<close> are then widened to the 64 bits of
  \<^verbatim>\<open>higher_bits\<close>, and the 64-bit result is cut to \<^verbatim>\<open>unsigned\<close> by the return.
\<close>

definition bitwise_hash_function :: "new_addr_type \<Rightarrow> unsigned \<Rightarrow> unsigned \<Rightarrow> unsigned" where
  "bitwise_hash_function higher_bits index bank_set_num =
     ucast ((ucast index :: new_addr_type) XOR (higher_bits AND ucast (bank_set_num - 1)))"

definition PAE_hash_function :: "new_addr_type \<Rightarrow> unsigned \<Rightarrow> unsigned \<Rightarrow> error + unsigned" where
  "PAE_hash_function higher_bits index bank_set_num =
  (if bank_set_num = 32 then
     let a = bitset 64 higher_bits;
         b = bitset 5 index;
         new_index = bitset 5 index;
         new_index = new_index[0 := xors [a ! 13, a ! 10, a ! 9, a ! 5, a ! 0, b ! 3, b ! 0,
                                          b ! 0]];
         new_index = new_index[1 := xors [a ! 12, a ! 11, a ! 6, a ! 1, b ! 3, b ! 2, b ! 1,
                                          b ! 1]];
         new_index = new_index[2 := xors [a ! 14, a ! 9, a ! 8, a ! 7, a ! 2, b ! 1, b ! 2]];
         new_index = new_index[3 := xors [a ! 11, a ! 10, a ! 8, a ! 3, b ! 2, b ! 3, b ! 3]];
         new_index = new_index[4 := xors [a ! 12, a ! 9, a ! 8, a ! 5, a ! 4, b ! 1, b ! 0,
                                          b ! 4]]
     in Inr (to_ulong new_index)
   else Inl UnsupportedBankCount)"

section \<open>Auxiliary facts\<close>

subsection \<open>Exclusive or on bits\<close>

lemma bxor_assoc: "bxor (bxor p q) r = bxor p (bxor q r)"
  by (auto simp: bxor_def)

lemma bxor_commute: "bxor p q = bxor q p"
  by (auto simp: bxor_def)

lemma bxor_left_commute: "bxor p (bxor q r) = bxor q (bxor p r)"
  by (auto simp: bxor_def)

lemma bxor_self: "bxor p p = False"
  by (simp add: bxor_def)

lemma bxor_self_left: "bxor p (bxor p q) = q"
  by (auto simp: bxor_def)

lemma bxor_False_right: "bxor p False = p"
  by (simp add: bxor_def)

lemma bxor_False_left: "bxor False p = p"
  by (simp add: bxor_def)

lemmas bxor_ac =
  bxor_assoc bxor_commute bxor_left_commute bxor_self bxor_self_left
  bxor_False_right bxor_False_left

subsection \<open>Bitsets and their values\<close>

lemma bitset_nth: "k < N \<Longrightarrow> bitset N v ! k = bit v k"
  by (simp add: bitset_def)

lemma bitset_unfold:
  "bitset 3 v = [bit v 0, bit v 1, bit v 2]"
  "bitset 4 v = [bit v 0, bit v 1, bit v 2, bit v 3]"
  "bitset 5 v = [bit v 0, bit v 1, bit v 2, bit v 3, bit v 4]"
  "bitset 6 v = [bit v 0, bit v 1, bit v 2, bit v 3, bit v 4, bit v 5]"
  "bitset 7 v = [bit v 0, bit v 1, bit v 2, bit v 3, bit v 4, bit v 5, bit v 6]"
  "bitset 8 v = [bit v 0, bit v 1, bit v 2, bit v 3, bit v 4, bit v 5, bit v 6, bit v 7]"
  by (simp_all add: bitset_def upt_rec numeral_eq_Suc)

lemma list_update_numeral:
  "(x # xs)[numeral k := y] = x # xs[pred_numeral k := y]"
  by (simp add: numeral_eq_Suc)

lemmas hash_simps = Let_def bitset_nth bitset_unfold list_update_numeral

lemma bit_xor_bxor: "bit (x XOR y) k = bxor (bit x k) (bit y k)"
  by (simp add: bit_xor_iff bxor_def)

lemma bit_to_ulong: "bit (to_ulong bs) k \<longleftrightarrow> k < 32 \<and> k < length bs \<and> bs ! k"
  by (simp add: to_ulong_def bit_horner_sum_bit_word_iff)

lemma to_ulong_xor:
  "length xs = length ys \<Longrightarrow> to_ulong xs XOR to_ulong ys = to_ulong (map2 bxor xs ys)"
  by (rule bit_eqI) (auto simp add: bit_to_ulong bit_xor_iff bxor_def)

lemma to_ulong_bitset:
  fixes v :: unsigned
  shows "to_ulong (bitset N v) = take_bit N v"
  by (rule bit_eqI) (auto simp add: bit_to_ulong bit_take_bit_iff bitset_def dest: bit_imp_le_length)

lemma to_ulong_less: "length bs < 32 \<Longrightarrow> to_ulong bs < 2 ^ length bs"
proof -
  assume len: "length bs < 32"
  have "to_ulong bs AND mask (length bs) = to_ulong bs"
    by (rule bit_eqI) (auto simp add: bit_to_ulong bit_and_iff bit_mask_iff)
  moreover from len have "to_ulong bs AND mask (length bs) < 2 ^ length bs"
    by (simp add: and_mask_less_size word_size)
  ultimately show ?thesis by simp
qed

lemma take_bit_bits:
  fixes v :: unsigned
  shows "take_bit 3 v = to_ulong [bit v 0, bit v 1, bit v 2]"
    and "take_bit 4 v = to_ulong [bit v 0, bit v 1, bit v 2, bit v 3]"
    and "take_bit 5 v = to_ulong [bit v 0, bit v 1, bit v 2, bit v 3, bit v 4]"
    and "take_bit 6 v = to_ulong [bit v 0, bit v 1, bit v 2, bit v 3, bit v 4, bit v 5]"
    and "take_bit 7 v = to_ulong [bit v 0, bit v 1, bit v 2, bit v 3, bit v 4, bit v 5, bit v 6]"
    and "take_bit 8 v =
           to_ulong [bit v 0, bit v 1, bit v 2, bit v 3, bit v 4, bit v 5, bit v 6, bit v 7]"
  by (simp_all only: to_ulong_bitset [symmetric] bitset_unfold)

subsection \<open>Words below a power of two\<close>

lemma take_bit_below:
  fixes v :: unsigned
  shows "v < 2 ^ n \<Longrightarrow> take_bit n v = v"
  by (simp add: take_bit_eq_mask less_mask_eq)

lemma xor_below:
  fixes x y :: unsigned
  assumes "n < 32" and "x < 2 ^ n" and "y < 2 ^ n"
  shows "x XOR y < 2 ^ n"
proof -
  from assms have "x AND mask n = x" and "y AND mask n = y"
    by (simp_all add: less_mask_eq)
  then have "(x XOR y) AND mask n = x XOR y"
    by (metis bit.conj_xor_distrib2)
  moreover from assms(1) have "(x XOR y) AND mask n < 2 ^ n"
    by (simp add: and_mask_less_size word_size)
  ultimately show ?thesis by simp
qed

subsection \<open>The table-driven hashes, bank count by bank count\<close>

lemma ipoly_defined:
  "ipoly_hash_function h i 8 = Inr (projr (ipoly_hash_function h i 8))"
  "ipoly_hash_function h i 16 = Inr (projr (ipoly_hash_function h i 16))"
  "ipoly_hash_function h i 32 = Inr (projr (ipoly_hash_function h i 32))"
  "ipoly_hash_function h i 64 = Inr (projr (ipoly_hash_function h i 64))"
  "ipoly_hash_function h i 128 = Inr (projr (ipoly_hash_function h i 128))"
  "ipoly_hash_function h i 256 = Inr (projr (ipoly_hash_function h i 256))"
  by (simp_all add: ipoly_hash_function_def Let_def)

lemma ipoly_xor:
  "projr (ipoly_hash_function (a XOR a') (b XOR b') 8) =
     projr (ipoly_hash_function a b 8) XOR projr (ipoly_hash_function a' b' 8)"
  "projr (ipoly_hash_function (a XOR a') (b XOR b') 16) =
     projr (ipoly_hash_function a b 16) XOR projr (ipoly_hash_function a' b' 16)"
  "projr (ipoly_hash_function (a XOR a') (b XOR b') 32) =
     projr (ipoly_hash_function a b 32) XOR projr (ipoly_hash_function a' b' 32)"
  "projr (ipoly_hash_function (a XOR a') (b XOR b') 64) =
     projr (ipoly_hash_function a b 64) XOR projr (ipoly_hash_function a' b' 64)"
  "projr (ipoly_hash_function (a XOR a') (b XOR b') 128) =
     projr (ipoly_hash_function a b 128) XOR projr (ipoly_hash_function a' b' 128)"
  "projr (ipoly_hash_function (a XOR a') (b XOR b') 256) =
     projr (ipoly_hash_function a b 256) XOR projr (ipoly_hash_function a' b' 256)"
  by (simp_all add: ipoly_hash_function_def hash_simps to_ulong_xor bit_xor_bxor bxor_ac)

lemma to_ulong_below:
  "to_ulong [x0, x1, x2] < 8"
  "to_ulong [x0, x1, x2, x3] < 16"
  "to_ulong [x0, x1, x2, x3, x4] < 32"
  "to_ulong [x0, x1, x2, x3, x4, x5] < 64"
  "to_ulong [x0, x1, x2, x3, x4, x5, x6] < 128"
  "to_ulong [x0, x1, x2, x3, x4, x5, x6, x7] < 256"
  using to_ulong_less [of "[x0, x1, x2]"] to_ulong_less [of "[x0, x1, x2, x3]"]
    to_ulong_less [of "[x0, x1, x2, x3, x4]"] to_ulong_less [of "[x0, x1, x2, x3, x4, x5]"]
    to_ulong_less [of "[x0, x1, x2, x3, x4, x5, x6]"]
    to_ulong_less [of "[x0, x1, x2, x3, x4, x5, x6, x7]"]
  by simp_all

lemma ipoly_below:
  "projr (ipoly_hash_function h i 8) < 8"
  "projr (ipoly_hash_function h i 16) < 16"
  "projr (ipoly_hash_function h i 32) < 32"
  "projr (ipoly_hash_function h i 64) < 64"
  "projr (ipoly_hash_function h i 128) < 128"
  "projr (ipoly_hash_function h i 256) < 256"
  by (simp_all add: ipoly_hash_function_def hash_simps to_ulong_below)

lemma ipoly_zero:
  "ipoly_hash_function 0 i 8 = Inr (take_bit 3 i)"
  "ipoly_hash_function 0 i 16 = Inr (take_bit 4 i)"
  "ipoly_hash_function 0 i 32 = Inr (take_bit 5 i)"
  "ipoly_hash_function 0 i 64 = Inr (take_bit 6 i)"
  "ipoly_hash_function 0 i 128 = Inr (take_bit 7 i)"
  "ipoly_hash_function 0 i 256 = Inr (take_bit 8 i)"
  by (simp_all add: ipoly_hash_function_def hash_simps take_bit_bits bxor_ac)

lemma PAE_xor:
  "projr (PAE_hash_function (a XOR a') (b XOR b') 32) =
     projr (PAE_hash_function a b 32) XOR projr (PAE_hash_function a' b' 32)"
  by (simp add: PAE_hash_function_def hash_simps to_ulong_xor bit_xor_bxor bxor_ac)

lemma PAE_below: "projr (PAE_hash_function h i 32) < 32"
  by (simp add: PAE_hash_function_def hash_simps to_ulong_below)

lemma PAE_defined: "PAE_hash_function h i 32 = Inr (projr (PAE_hash_function h i 32))"
  by (simp add: PAE_hash_function_def Let_def)

subsection \<open>Exclusive or with a constant permutes the words below a power of two\<close>

lemma xor_right_cancel:
  fixes x y c :: unsigned
  shows "x XOR c = y XOR c \<longleftrightarrow> x = y"
proof
  assume "x XOR c = y XOR c"
  then have "(x XOR c) XOR c = (y XOR c) XOR c"
    by simp
  then show "x = y"
    by (simp add: xor.assoc)
qed simp

lemma xor_const_bij:
  fixes c :: unsigned and f :: "unsigned \<Rightarrow> 'e + unsigned"
  assumes n: "n < 32" and c: "c < 2 ^ n"
    and f: "\<And>index. f index = Inr (take_bit n index XOR c)"
  shows "bij_betw f {index. index < 2 ^ n} (Inr ` {v. v < 2 ^ n})"
proof (rule bij_betwI')
  fix x y :: unsigned
  assume "x \<in> {index. index < 2 ^ n}" and "y \<in> {index. index < 2 ^ n}"
  then have "take_bit n x = x" and "take_bit n y = y"
    by (simp_all add: take_bit_below)
  then show "f x = f y \<longleftrightarrow> x = y"
    by (simp add: f xor_right_cancel)
next
  fix x :: unsigned
  assume "x \<in> {index. index < 2 ^ n}"
  then have "take_bit n x = x" and "x < 2 ^ n"
    by (simp_all add: take_bit_below)
  with n c have "x XOR c < 2 ^ n"
    by (simp add: xor_below)
  with \<open>take_bit n x = x\<close> show "f x \<in> Inr ` {v. v < 2 ^ n}"
    by (simp add: f)
next
  fix y :: "'e + unsigned"
  assume "y \<in> Inr ` {v. v < 2 ^ n}"
  then obtain v where y: "y = Inr v" and v: "v < 2 ^ n"
    by auto
  from n c v have below: "v XOR c < 2 ^ n"
    by (simp add: xor_below)
  then have "take_bit n (v XOR c) = v XOR c"
    by (rule take_bit_below)
  then have "f (v XOR c) = Inr v"
    by (simp add: f xor.assoc)
  with below y show "\<exists>x\<in>{index. index < 2 ^ n}. y = f x"
    by auto
qed

lemma ipoly_affine:
  "ipoly_hash_function h i 8 = Inr (take_bit 3 i XOR projr (ipoly_hash_function h 0 8))"
  "ipoly_hash_function h i 16 = Inr (take_bit 4 i XOR projr (ipoly_hash_function h 0 16))"
  "ipoly_hash_function h i 32 = Inr (take_bit 5 i XOR projr (ipoly_hash_function h 0 32))"
  "ipoly_hash_function h i 64 = Inr (take_bit 6 i XOR projr (ipoly_hash_function h 0 64))"
  "ipoly_hash_function h i 128 = Inr (take_bit 7 i XOR projr (ipoly_hash_function h 0 128))"
  "ipoly_hash_function h i 256 = Inr (take_bit 8 i XOR projr (ipoly_hash_function h 0 256))"
  by (simp_all add: ipoly_hash_function_def hash_simps take_bit_bits to_ulong_xor bxor_ac)

lemma ipoly_permutes:
  "bij_betw (\<lambda>index. ipoly_hash_function h index 8) {index. index < 8} (Inr ` {v. v < 8})"
  "bij_betw (\<lambda>index. ipoly_hash_function h index 16) {index. index < 16} (Inr ` {v. v < 16})"
  "bij_betw (\<lambda>index. ipoly_hash_function h index 32) {index. index < 32} (Inr ` {v. v < 32})"
  "bij_betw (\<lambda>index. ipoly_hash_function h index 64) {index. index < 64} (Inr ` {v. v < 64})"
  "bij_betw (\<lambda>index. ipoly_hash_function h index 128) {index. index < 128} (Inr ` {v. v < 128})"
  "bij_betw (\<lambda>index. ipoly_hash_function h index 256) {index. index < 256} (Inr ` {v. v < 256})"
proof -
  show "bij_betw (\<lambda>index. ipoly_hash_function h index 8) {index. index < 8} (Inr ` {v. v < 8})"
    using xor_const_bij [of 3 "projr (ipoly_hash_function h 0 8)"
        "\<lambda>index. ipoly_hash_function h index 8", OF _ _ ipoly_affine(1)]
      ipoly_below(1) [of h 0]
    by simp
  show "bij_betw (\<lambda>index. ipoly_hash_function h index 16) {index. index < 16} (Inr ` {v. v < 16})"
    using xor_const_bij [of 4 "projr (ipoly_hash_function h 0 16)"
        "\<lambda>index. ipoly_hash_function h index 16", OF _ _ ipoly_affine(2)]
      ipoly_below(2) [of h 0]
    by simp
  show "bij_betw (\<lambda>index. ipoly_hash_function h index 32) {index. index < 32} (Inr ` {v. v < 32})"
    using xor_const_bij [of 5 "projr (ipoly_hash_function h 0 32)"
        "\<lambda>index. ipoly_hash_function h index 32", OF _ _ ipoly_affine(3)]
      ipoly_below(3) [of h 0]
    by simp
  show "bij_betw (\<lambda>index. ipoly_hash_function h index 64) {index. index < 64} (Inr ` {v. v < 64})"
    using xor_const_bij [of 6 "projr (ipoly_hash_function h 0 64)"
        "\<lambda>index. ipoly_hash_function h index 64", OF _ _ ipoly_affine(4)]
      ipoly_below(4) [of h 0]
    by simp
  show "bij_betw (\<lambda>index. ipoly_hash_function h index 128) {index. index < 128} (Inr ` {v. v < 128})"
    using xor_const_bij [of 7 "projr (ipoly_hash_function h 0 128)"
        "\<lambda>index. ipoly_hash_function h index 128", OF _ _ ipoly_affine(5)]
      ipoly_below(5) [of h 0]
    by simp
  show "bij_betw (\<lambda>index. ipoly_hash_function h index 256) {index. index < 256} (Inr ` {v. v < 256})"
    using xor_const_bij [of 8 "projr (ipoly_hash_function h 0 256)"
        "\<lambda>index. ipoly_hash_function h index 256", OF _ _ ipoly_affine(6)]
      ipoly_below(6) [of h 0]
    by simp
qed

lemma ipoly_at_origin:
  "ipoly_hash_function 0 0 8 = Inr 0"
  "ipoly_hash_function 0 0 16 = Inr 0"
  "ipoly_hash_function 0 0 32 = Inr 0"
  "ipoly_hash_function 0 0 64 = Inr 0"
  "ipoly_hash_function 0 0 128 = Inr 0"
  "ipoly_hash_function 0 0 256 = Inr 0"
  by (simp_all add: ipoly_zero)

lemma PAE_zero: "PAE_hash_function 0 0 32 = Inr 0"
  by (simp add: PAE_hash_function_def hash_simps bxor_ac to_ulong_def)

subsection \<open>The bitwise hash on 32-bit words\<close>

text \<open>
  Nothing is lost by the return to 32 bits: the mask \<^verbatim>\<open>bank_set_num - 1\<close> has no bit above
  bit 31, so the 64-bit intermediate result has none either.
\<close>

lemma bitwise_hash_word:
  "bitwise_hash_function h i bc = i XOR (ucast h AND (bc - 1))"
  unfolding bitwise_hash_function_def
  by (rule bit_eqI) (auto simp add: bit_simps)

section \<open>Properties\<close>

subsection \<open>C1: IPOLY permutes the indices\<close>

text \<open>
  \<^bold>\<open>C1.\<close> For every bank count in \<open>{8, 16, 32, 64, 128, 256}\<close> and every fixed value of
  the high bits, \<^verbatim>\<open>ipoly_hash_function\<close> maps the raw indices below the bank count one-to-one
  onto the hashed indices below the bank count: it never fails there, distinct raw indices
  get distinct hashed indices, and every index below the bank count is the hash of one.
\<close>

theorem ipoly_hash_bijective:
  assumes "bank_set_num \<in> {8, 16, 32, 64, 128, 256}"
  shows "bij_betw (\<lambda>index. ipoly_hash_function higher_bits index bank_set_num)
           {index. index < bank_set_num} (Inr ` {v. v < bank_set_num})"
  using assms ipoly_permutes [of higher_bits] by auto

theorem ipoly_hash_bijective_witness:
  "(8 :: unsigned) \<in> {8, 16, 32, 64, 128, 256} \<and>
   bij_betw (\<lambda>index. ipoly_hash_function 0 index 8) {index. index < 8} (Inr ` {v. v < 8})"
  using ipoly_hash_bijective [of 8 0] by simp

subsection \<open>C2: PAE and the indices\<close>

text \<open>
  \<^bold>\<open>C2.\<close> The claim is that for bank count 32 and fixed high bits \<^verbatim>\<open>PAE_hash_function\<close>
  is one-to-one on the raw indices below 32. The function as written is not: three of its
  five lines XOR a raw-index bit with itself (\<^verbatim>\<open>b[0] ^ b[0]\<close>, \<^verbatim>\<open>b[1] ^ b[1]\<close>,
  \<^verbatim>\<open>b[3] ^ b[3]\<close>), which cancels, so that raw-index bits 0 and 4 reach the result through
  output bit 4 alone, and only as \<^verbatim>\<open>b[0] ^ b[4]\<close>. Whatever the high bits are, raw indices 1
  and 16 get the same hashed index; with high bits 0 it is 16 for both.
\<close>

theorem PAE_hash_not_bijective:
  "PAE_hash_function higher_bits 1 32 = PAE_hash_function higher_bits 16 32 \<and>
   PAE_hash_function 0 1 32 = Inr 16 \<and> PAE_hash_function 0 16 32 = Inr 16 \<and>
   \<not> bij_betw (\<lambda>index. PAE_hash_function higher_bits index 32)
        {index. index < 32} (Inr ` {v. v < 32})"
proof (intro conjI)
  show same: "PAE_hash_function higher_bits 1 32 = PAE_hash_function higher_bits 16 32"
    by (simp add: PAE_hash_function_def hash_simps bxor_ac)
  show "PAE_hash_function 0 1 32 = Inr 16"
    by (simp add: PAE_hash_function_def hash_simps bxor_ac to_ulong_def)
  show "PAE_hash_function 0 16 32 = Inr 16"
    by (simp add: PAE_hash_function_def hash_simps bxor_ac to_ulong_def)
  show "\<not> bij_betw (\<lambda>index. PAE_hash_function higher_bits index 32)
        {index. index < 32} (Inr ` {v. v < 32})"
  proof
    assume "bij_betw (\<lambda>index. PAE_hash_function higher_bits index 32)
        {index. index < 32} (Inr ` {v. v < 32})"
    then have "inj_on (\<lambda>index. PAE_hash_function higher_bits index 32) {index. index < 32}"
      by (rule bij_betw_imp_inj_on)
    from inj_onD [OF this same] show False
      by simp
  qed
qed

subsection \<open>C3: range of the table-driven hashes\<close>

text \<open>
  \<^bold>\<open>C3.\<close> For every supported bank count (one of \<open>{8, 16, 32, 64, 128, 256}\<close> for
  IPOLY, 32 for PAE) and all high bits and raw indices, the hash returns a value, and that
  value is below the bank count.
\<close>

theorem hash_result_in_range:
  "(bank_set_num \<in> {8, 16, 32, 64, 128, 256} \<longrightarrow>
      (\<exists>v. ipoly_hash_function higher_bits index bank_set_num = Inr v \<and> v < bank_set_num)) \<and>
   (bank_set_num = 32 \<longrightarrow>
      (\<exists>v. PAE_hash_function higher_bits index bank_set_num = Inr v \<and> v < bank_set_num))"
  using ipoly_defined [of higher_bits index] ipoly_below [of higher_bits index]
    PAE_defined [of higher_bits index] PAE_below [of higher_bits index]
  by auto

theorem hash_result_in_range_witness:
  "(32 :: unsigned) \<in> {8, 16, 32, 64, 128, 256} \<and>
   (\<exists>v. ipoly_hash_function 1234 5 32 = Inr v \<and> v < 32) \<and>
   (\<exists>v. PAE_hash_function 1234 5 32 = Inr v \<and> v < 32)"
  using hash_result_in_range [of 32 1234 5] by simp

subsection \<open>C4: IPOLY with high bits 0\<close>

text \<open>
  \<^bold>\<open>C4.\<close> With high bits 0, a bank count in \<open>{8, 16, 64, 128}\<close> and a raw index below the
  bank count, \<^verbatim>\<open>ipoly_hash_function\<close> returns the raw index unchanged. The worked example of
  the claim, bank count 8 and raw index 5 giving 5, is the instance that follows the theorem.
\<close>

theorem ipoly_identity_at_zero:
  assumes "bank_set_num \<in> {8, 16, 64, 128}" and "index < bank_set_num"
  shows "ipoly_hash_function 0 index bank_set_num = Inr index"
  using assms ipoly_zero [of index]
    take_bit_below [of index 3] take_bit_below [of index 4]
    take_bit_below [of index 6] take_bit_below [of index 7]
  by auto

theorem ipoly_identity_at_zero_witness:
  "(8 :: unsigned) \<in> {8, 16, 64, 128} \<and> (5 :: unsigned) < 8 \<and>
   ipoly_hash_function 0 5 8 = Inr 5"
  using ipoly_identity_at_zero [of 8 5] by simp

subsection \<open>C5: IPOLY with 32 banks\<close>

text \<open>
  \<^bold>\<open>C5, as stated.\<close> The claim is that for bank count 32 the IPOLY table mixes raw-index
  bits across output bits, so that with high bits 0 some raw index below 32 is hashed to a
  different value. The table for 32 banks reads \<^verbatim>\<open>b[k]\<close> in the line of output bit \<open>k\<close> and
  no other raw-index bit, as the tables of the other bank counts do: with high bits 0 no
  raw index below 32 is changed.
\<close>

theorem ipoly_32_cross_terms_counterexample:
  "\<not> (\<exists>index. index < 32 \<and> ipoly_hash_function 0 index 32 \<noteq> Inr index)"
  using ipoly_zero(3) take_bit_below [of _ 5] by simp

text \<open>
  \<^bold>\<open>C5, amended.\<close> For bank count 32 the result of \<^verbatim>\<open>ipoly_hash_function\<close> is the low five
  bits of the raw index XORed with a value \<open>c\<close> that depends on the high bits only: output bit
  \<open>k\<close> depends on the raw index through its bit \<open>k\<close> and through no other bit. With high bits 0
  every raw index below 32 is returned unchanged.
\<close>

theorem ipoly_32_no_cross_terms:
  "(\<exists>c. \<forall>index'. ipoly_hash_function higher_bits index' 32 = Inr (take_bit 5 index' XOR c)) \<and>
   (index < 32 \<longrightarrow> ipoly_hash_function 0 index 32 = Inr index)"
proof (intro conjI impI)
  have "\<forall>index'. ipoly_hash_function higher_bits index' 32 =
      Inr (take_bit 5 index' XOR projr (ipoly_hash_function higher_bits 0 32))"
    by (intro allI) (rule ipoly_affine)
  then show "\<exists>c. \<forall>index'. ipoly_hash_function higher_bits index' 32 =
      Inr (take_bit 5 index' XOR c)" ..
next
  assume "index < 32"
  then show "ipoly_hash_function 0 index 32 = Inr index"
    using take_bit_below [of index 5] by (simp add: ipoly_zero)
qed

theorem ipoly_32_no_cross_terms_witness:
  "(\<exists>c. \<forall>index'. ipoly_hash_function 1234 index' 32 = Inr (take_bit 5 index' XOR c)) \<and>
   (7 :: unsigned) < 32 \<and> ipoly_hash_function 0 7 32 = Inr 7"
  using ipoly_32_no_cross_terms [of 1234 7] by simp

subsection \<open>C6: the bitwise hash\<close>

text \<open>
  \<^bold>\<open>C6.\<close> For all high bits, raw indices and bank counts, \<^verbatim>\<open>bitwise_hash_function\<close> returns
  the raw index XORed with the high bits masked by \<^verbatim>\<open>bank_set_num - 1\<close>; it has no error
  result and checks nothing about the bank count. The subtraction is the one of the code, on
  \<^verbatim>\<open>unsigned\<close>: for a bank count of 0 the mask is \<open>2\<^sup>3\<^sup>2 - 1\<close>. For bank count 32 the mask
  is 31. The values are compared as natural numbers.
\<close>

theorem bitwise_hash_is_masked_xor:
  "unat (bitwise_hash_function higher_bits index bank_set_num) =
     unat index XOR (unat higher_bits AND unat (bank_set_num - 1)) \<and>
   unat (bitwise_hash_function higher_bits index 32) = unat index XOR (unat higher_bits AND 31)"
proof -
  have "unat (bitwise_hash_function higher_bits index bc) =
     unat index XOR (unat higher_bits AND unat (bc - 1))" for bc
    unfolding bitwise_hash_function_def
    by (rule bit_eqI) (auto simp add: bit_simps dest: bit_imp_le_length)
  from this [of bank_set_num] this [of 32] show ?thesis by simp
qed

subsection \<open>C7: worked examples of the bitwise hash\<close>

text \<open>
  \<^bold>\<open>C7, as stated.\<close> The claim is that with bank count 32 the bitwise hash of high bits
  \<open>0b100000\<close> and raw index \<open>0b00101\<close> is \<open>0b00101\<close>, and that of high bits \<open>0b10101\<close> and raw
  index \<open>0b00101\<close> is \<open>0b00000\<close>. The second value is wrong: \<open>0b00101 XOR 0b10101\<close> is
  \<open>0b10000\<close>.
\<close>

theorem bitwise_hash_examples_counterexample:
  "\<not> (bitwise_hash_function 0b100000 0b00101 32 = 0b00101 \<and>
      bitwise_hash_function 0b10101 0b00101 32 = 0b00000)"
  by (simp add: bitwise_hash_word)

text \<open>
  \<^bold>\<open>C7, amended.\<close> With bank count 32, the bitwise hash of high bits \<open>0b100000\<close> and raw
  index \<open>0b00101\<close> is \<open>0b00101\<close>, and that of high bits \<open>0b10101\<close> and raw index \<open>0b00101\<close> is
  \<open>0b10000\<close>.
\<close>

theorem bitwise_hash_examples:
  "bitwise_hash_function 0b100000 0b00101 32 = 0b00101 \<and>
   bitwise_hash_function 0b10101 0b00101 32 = 0b10000"
  by (simp add: bitwise_hash_word)

subsection \<open>C8: unsupported bank counts\<close>

text \<open>
  \<^bold>\<open>C8.\<close> \<^verbatim>\<open>ipoly_hash_function\<close> ends in the failed assertion exactly when the bank count
  is outside \<open>{8, 16, 32, 64, 128, 256}\<close>, and \<^verbatim>\<open>PAE_hash_function\<close> exactly when the bank
  count is not 32: an unsupported bank count never yields a hashed index, and a supported
  one never reaches the assertion.
\<close>

theorem unsupported_bank_count:
  "(ipoly_hash_function higher_bits index bank_set_num = Inl UnsupportedBankCount \<longleftrightarrow>
      bank_set_num \<notin> {8, 16, 32, 64, 128, 256}) \<and>
   (PAE_hash_function higher_bits index bank_set_num = Inl UnsupportedBankCount \<longleftrightarrow>
      bank_set_num \<noteq> 32)"
  by (simp add: ipoly_hash_function_def PAE_hash_function_def Let_def)

theorem unsupported_bank_count_witness:
  "ipoly_hash_function 0 0 7 = Inl UnsupportedBankCount \<and>
   PAE_hash_function 0 0 64 = Inl UnsupportedBankCount \<and>
   ipoly_hash_function 0 0 32 \<noteq> Inl UnsupportedBankCount \<and>
   PAE_hash_function 0 0 32 \<noteq> Inl UnsupportedBankCount"
  using unsupported_bank_count [of 0 0 7] unsupported_bank_count [of 0 0 64]
    unsupported_bank_count [of 0 0 32]
  by simp

subsection \<open>C9: linearity over GF(2)\<close>

text \<open>
  \<^bold>\<open>C9.\<close> For every supported bank count the hash \<open>f\<close> (IPOLY for a bank count in
  \<open>{8, 16, 32, 64, 128, 256}\<close>, PAE for 32) is linear over GF(2) in the pair of high bits and
  raw index: \<open>f (a XOR a') (b XOR b') = f a b XOR f a' b'\<close>, all three being values, and
  \<open>f 0 0 = 0\<close>.
\<close>

theorem hash_linear_over_GF2:
  "(bank_set_num \<in> {8, 16, 32, 64, 128, 256} \<longrightarrow>
      (\<exists>v v'. ipoly_hash_function a b bank_set_num = Inr v \<and>
         ipoly_hash_function a' b' bank_set_num = Inr v' \<and>
         ipoly_hash_function (a XOR a') (b XOR b') bank_set_num = Inr (v XOR v')) \<and>
      ipoly_hash_function 0 0 bank_set_num = Inr 0) \<and>
   (bank_set_num = 32 \<longrightarrow>
      (\<exists>v v'. PAE_hash_function a b bank_set_num = Inr v \<and>
         PAE_hash_function a' b' bank_set_num = Inr v' \<and>
         PAE_hash_function (a XOR a') (b XOR b') bank_set_num = Inr (v XOR v')) \<and>
      PAE_hash_function 0 0 bank_set_num = Inr 0)"
proof -
  have ipoly: "\<exists>v v'. ipoly_hash_function a b bc = Inr v \<and>
      ipoly_hash_function a' b' bc = Inr v' \<and>
      ipoly_hash_function (a XOR a') (b XOR b') bc = Inr (v XOR v')"
    if "ipoly_hash_function a b bc = Inr (projr (ipoly_hash_function a b bc))"
      and "ipoly_hash_function a' b' bc = Inr (projr (ipoly_hash_function a' b' bc))"
      and "ipoly_hash_function (a XOR a') (b XOR b') bc =
        Inr (projr (ipoly_hash_function (a XOR a') (b XOR b') bc))"
      and "projr (ipoly_hash_function (a XOR a') (b XOR b') bc) =
        projr (ipoly_hash_function a b bc) XOR projr (ipoly_hash_function a' b' bc)"
    for bc
    using that by metis
  have PAE: "\<exists>v v'. PAE_hash_function a b 32 = Inr v \<and>
      PAE_hash_function a' b' 32 = Inr v' \<and>
      PAE_hash_function (a XOR a') (b XOR b') 32 = Inr (v XOR v')"
    using PAE_defined [of a b] PAE_defined [of a' b'] PAE_defined [of "a XOR a'" "b XOR b'"]
      PAE_xor [of a a' b b']
    by metis
  show ?thesis
    using ipoly [OF ipoly_defined(1) ipoly_defined(1) ipoly_defined(1) ipoly_xor(1)]
      ipoly [OF ipoly_defined(2) ipoly_defined(2) ipoly_defined(2) ipoly_xor(2)]
      ipoly [OF ipoly_defined(3) ipoly_defined(3) ipoly_defined(3) ipoly_xor(3)]
      ipoly [OF ipoly_defined(4) ipoly_defined(4) ipoly_defined(4) ipoly_xor(4)]
      ipoly [OF ipoly_defined(5) ipoly_defined(5) ipoly_defined(5) ipoly_xor(5)]
      ipoly [OF ipoly_defined(6) ipoly_defined(6) ipoly_defined(6) ipoly_xor(6)]
      PAE ipoly_at_origin PAE_zero
    by auto
qed

theorem hash_linear_over_GF2_witness:
  "(32 :: unsigned) \<in> {8, 16, 32, 64, 128, 256} \<and>
   (\<exists>v v'. ipoly_hash_function 1234 3 32 = Inr v \<and> ipoly_hash_function 999 17 32 = Inr v' \<and>
      ipoly_hash_function (1234 XOR 999) (3 XOR 17) 32 = Inr (v XOR v')) \<and>
   ipoly_hash_function 0 0 32 = Inr 0 \<and>
   (\<exists>v v'. PAE_hash_function 1234 3 32 = Inr v \<and> PAE_hash_function 999 17 32 = Inr v' \<and>
      PAE_hash_function (1234 XOR 999) (3 XOR 17) 32 = Inr (v XOR v')) \<and>
   PAE_hash_function 0 0 32 = Inr 0"
  using hash_linear_over_GF2 [of 32 1234 3 999 17] by simp

subsection \<open>C10: the bitwise hash does not reduce the index\<close>

text \<open>
  \<^bold>\<open>C10.\<close> For a bank count that is a power of two (\<open>2\<^sup>n\<close> with \<open>n < 32\<close>, the powers of two
  an \<^verbatim>\<open>unsigned\<close> holds) and any high bits, a raw index below the bank count is hashed to a
  value below the bank count; but the raw index is not reduced: with high bits 0 the raw
  index equal to the bank count is hashed to a value that is not below the bank count.
\<close>

theorem bitwise_hash_no_range_reduction:
  assumes "n < 32" and "bank_set_num = 2 ^ n"
  shows "(index < bank_set_num \<longrightarrow>
            bitwise_hash_function higher_bits index bank_set_num < bank_set_num) \<and>
         bank_set_num \<le> bitwise_hash_function 0 bank_set_num bank_set_num"
proof (intro conjI impI)
  assume "index < bank_set_num"
  with assms have index: "index < 2 ^ n"
    by simp
  have "ucast higher_bits AND (mask n :: unsigned) < 2 ^ n"
    using assms(1) by (simp add: and_mask_less_size word_size)
  with assms(1) index have "index XOR (ucast higher_bits AND mask n) < 2 ^ n"
    by (rule xor_below)
  with assms(2) show "bitwise_hash_function higher_bits index bank_set_num < bank_set_num"
    by (simp add: bitwise_hash_word mask_eq_exp_minus_1)
next
  show "bank_set_num \<le> bitwise_hash_function 0 bank_set_num bank_set_num"
    by (simp add: bitwise_hash_word)
qed

theorem bitwise_hash_no_range_reduction_witness:
  "(5 :: nat) < 32 \<and> (32 :: unsigned) = 2 ^ 5 \<and> (5 :: unsigned) < 32 \<and>
   bitwise_hash_function 21 5 32 < 32 \<and> 32 \<le> bitwise_hash_function 0 32 32"
  using bitwise_hash_no_range_reduction [of 5 32 5 21] by simp

end
